theory Spec2Isabelle
  imports Complex_Main
begin

section \<open>Gradient filters of grokfast.py\<close>

text \<open>
  The four filters of \<^verbatim>\<open>grokfast.py\<close> (\<^verbatim>\<open>gradfilter_ma\<close>, \<^verbatim>\<open>gradfilter_ema\<close>,
  \<^verbatim>\<open>smoother\<close>, \<^verbatim>\<open>gradfilter_kalman\<close>) and the filter selection of
  \<^verbatim>\<open>main_transformer.py\<close> are embedded as HOL functions.

  Modelling decisions.
  \<^item> An element of a tensor is a finite number, an infinity or NaN, and the operations
    on elements treat infinities, NaN and division by zero as IEEE 754 does. On finite
    numbers the arithmetic is the exact arithmetic of \<^typ>\<open>real\<close>: the rounding of a
    result to the format of the tensor, overflow to an infinity, underflow and the sign
    of zero are not part of the model. The theorems below use the arithmetic of finite
    numbers only where the format computes it exactly (small integers, a product with
    zero or one, a sum with zero, a number minus itself) or to tell that a result is
    finite, not zero or not negative; where the code evaluates more than that, they
    state the expression it evaluates.
  \<^item> A tensor is the list of its elements. Elementwise operations on two tensors pair
    the elements by position; the theorems that depend on it assume that the operands
    have the same number of elements (torch would broadcast or raise otherwise).
  \<^item> The hyperparameters (Python floats) are finite numbers.
  \<^item> A parameter carries \<^verbatim>\<open>requires_grad\<close>, its value \<^verbatim>\<open>data\<close> and an optional
    gradient; a module is the list that \<^verbatim>\<open>named_parameters()\<close> yields, in order.
  \<^item> A state dictionary is a map from names to entries.
  \<^item> The filters mutate the gradients and the state in place and may raise in the
    middle of their loop. Every function therefore returns a triple: the exception
    raised (if any), the parameters as they are when the call ends, and the state
    dictionary as it is when the call ends.
\<close>

subsection \<open>Elements of a tensor\<close>

datatype fval = Fin real | PInf | NInf | NaN

fun is_fin :: "fval \<Rightarrow> bool" where
  "is_fin (Fin a) = True"
| "is_fin PInf = False"
| "is_fin NInf = False"
| "is_fin NaN = False"

fun fneg :: "fval \<Rightarrow> fval" where
  "fneg (Fin a) = Fin (- a)"
| "fneg PInf = NInf"
| "fneg NInf = PInf"
| "fneg NaN = NaN"

text \<open>Addition: NaN is absorbing, and opposite infinities add up to NaN.\<close>

fun fadd :: "fval \<Rightarrow> fval \<Rightarrow> fval" where
  "fadd (Fin a) (Fin b) = Fin (a + b)"
| "fadd (Fin a) PInf = PInf"
| "fadd (Fin a) NInf = NInf"
| "fadd (Fin a) NaN = NaN"
| "fadd PInf (Fin b) = PInf"
| "fadd PInf PInf = PInf"
| "fadd PInf NInf = NaN"
| "fadd PInf NaN = NaN"
| "fadd NInf (Fin b) = NInf"
| "fadd NInf PInf = NaN"
| "fadd NInf NInf = NInf"
| "fadd NInf NaN = NaN"
| "fadd NaN b = NaN"

definition fsub :: "fval \<Rightarrow> fval \<Rightarrow> fval" where
  "fsub a b = fadd a (fneg b)"

text \<open>Multiplication: an infinity times zero is NaN, otherwise the signs multiply.\<close>

definition inf_of_sign :: "bool \<Rightarrow> fval" where
  "inf_of_sign positive = (if positive then PInf else NInf)"

fun fmul :: "fval \<Rightarrow> fval \<Rightarrow> fval" where
  "fmul (Fin a) (Fin b) = Fin (a * b)"
| "fmul (Fin a) PInf = (if a = 0 then NaN else inf_of_sign (0 < a))"
| "fmul (Fin a) NInf = (if a = 0 then NaN else inf_of_sign (a < 0))"
| "fmul (Fin a) NaN = NaN"
| "fmul PInf (Fin b) = (if b = 0 then NaN else inf_of_sign (0 < b))"
| "fmul PInf PInf = PInf"
| "fmul PInf NInf = NInf"
| "fmul PInf NaN = NaN"
| "fmul NInf (Fin b) = (if b = 0 then NaN else inf_of_sign (b < 0))"
| "fmul NInf PInf = NInf"
| "fmul NInf NInf = PInf"
| "fmul NInf NaN = NaN"
| "fmul NaN b = NaN"

text \<open>Division: zero by zero and infinity by infinity are NaN, a finite number other than
  zero divided by zero is an infinity, a finite number divided by an infinity is zero.\<close>

fun fdiv :: "fval \<Rightarrow> fval \<Rightarrow> fval" where
  "fdiv (Fin a) (Fin b) =
     (if b = 0 then (if a = 0 then NaN else inf_of_sign (0 < a)) else Fin (a / b))"
| "fdiv (Fin a) PInf = Fin 0"
| "fdiv (Fin a) NInf = Fin 0"
| "fdiv (Fin a) NaN = NaN"
| "fdiv PInf (Fin b) = inf_of_sign (0 \<le> b)"
| "fdiv PInf PInf = NaN"
| "fdiv PInf NInf = NaN"
| "fdiv PInf NaN = NaN"
| "fdiv NInf (Fin b) = inf_of_sign (b < 0)"
| "fdiv NInf PInf = NaN"
| "fdiv NInf NInf = NaN"
| "fdiv NInf NaN = NaN"
| "fdiv NaN b = NaN"

subsection \<open>Tensors\<close>

type_synonym tensor = "fval list"

text \<open>\<^verbatim>\<open>a + b\<close>, \<^verbatim>\<open>a - b\<close>, \<^verbatim>\<open>a * b\<close>, \<^verbatim>\<open>a / b\<close> on two tensors.\<close>

definition t_add :: "tensor \<Rightarrow> tensor \<Rightarrow> tensor" where
  "t_add a b = map2 fadd a b"

definition t_sub :: "tensor \<Rightarrow> tensor \<Rightarrow> tensor" where
  "t_sub a b = map2 fsub a b"

definition t_mul :: "tensor \<Rightarrow> tensor \<Rightarrow> tensor" where
  "t_mul a b = map2 fmul a b"

definition t_div :: "tensor \<Rightarrow> tensor \<Rightarrow> tensor" where
  "t_div a b = map2 fdiv a b"

text \<open>A tensor and a Python number: \<^verbatim>\<open>a * c\<close>, \<^verbatim>\<open>c * a\<close>, \<^verbatim>\<open>a / c\<close>, \<^verbatim>\<open>a + c\<close>,
  \<^verbatim>\<open>c - a\<close>.\<close>

definition t_scale :: "tensor \<Rightarrow> real \<Rightarrow> tensor" where
  "t_scale a c = map (\<lambda>v. fmul v (Fin c)) a"

definition scale_t :: "real \<Rightarrow> tensor \<Rightarrow> tensor" where
  "scale_t c a = map (\<lambda>v. fmul (Fin c) v) a"

definition t_divs :: "tensor \<Rightarrow> real \<Rightarrow> tensor" where
  "t_divs a c = map (\<lambda>v. fdiv v (Fin c)) a"

definition t_adds :: "tensor \<Rightarrow> real \<Rightarrow> tensor" where
  "t_adds a c = map (\<lambda>v. fadd v (Fin c)) a"

definition s_sub_t :: "real \<Rightarrow> tensor \<Rightarrow> tensor" where
  "s_sub_t c a = map (\<lambda>v. fsub (Fin c) v) a"

definition zeros_like :: "tensor \<Rightarrow> tensor" where
  "zeros_like a = replicate (length a) (Fin 0)"

definition ones_like :: "tensor \<Rightarrow> tensor" where
  "ones_like a = replicate (length a) (Fin 1)"

text \<open>A tensor without an infinity or a NaN.\<close>

definition all_fin :: "tensor \<Rightarrow> bool" where
  "all_fin t = list_all is_fin t"

subsection \<open>Parameters, modules, exceptions\<close>

record param =
  requires_grad :: bool
  data :: tensor
  grad :: "tensor option"

type_synonym nn_module = "(string \<times> param) list"

datatype error = ValueError | KeyError | ZeroDivisionError | TypeError

text \<open>The guard \<^verbatim>\<open>p.requires_grad and p.grad is not None\<close> of every loop and of every
  dictionary comprehension; it yields the gradient when it holds.\<close>

definition live_grad :: "param \<Rightarrow> tensor option" where
  "live_grad p = (if requires_grad p then grad p else None)"

text \<open>\<^verbatim>\<open>{n: f(p) for n, p in m.named_parameters() if p.requires_grad and p.grad is not None}\<close>:
  entries are stored in order, a later one replacing an earlier one of the same name.\<close>

definition dict_of_params :: "(param \<Rightarrow> tensor \<Rightarrow> 'v) \<Rightarrow> nn_module \<Rightarrow> (string \<rightharpoonup> 'v)" where
  "dict_of_params f m =
     foldl (\<lambda>d (n, p). case live_grad p of None \<Rightarrow> d | Some g \<Rightarrow> d(n \<mapsto> f p g)) Map.empty m"

text \<open>The loop \<^verbatim>\<open>for n, p in m.named_parameters(): if p.requires_grad and p.grad is not
  None: body\<close>. The body receives the name, the parameter, its gradient and the
  dictionary, and returns the exception it raised (if any), the parameter and the
  dictionary as it leaves them. An exception ends the loop: the parameters after the
  current one are not visited.\<close>

fun for_named_parameters ::
  "(string \<Rightarrow> param \<Rightarrow> tensor \<Rightarrow> 's \<Rightarrow> error option \<times> param \<times> 's) \<Rightarrow>
   nn_module \<Rightarrow> 's \<Rightarrow> error option \<times> nn_module \<times> 's" where
  "for_named_parameters body [] st = (None, [], st)"
| "for_named_parameters body ((n, p) # ps) st =
     (case live_grad p of
        None \<Rightarrow>
          (case for_named_parameters body ps st of (e, ps', st') \<Rightarrow> (e, (n, p) # ps', st'))
      | Some g \<Rightarrow>
          (case body n p g st of
             (Some e, p', st') \<Rightarrow> (Some e, (n, p') # ps, st')
           | (None, p', st') \<Rightarrow>
               (case for_named_parameters body ps st' of
                  (e, ps', st'') \<Rightarrow> (e, (n, p') # ps', st''))))"

subsection \<open>collections.deque\<close>

record deque =
  maxlen :: "nat option"
  items :: "tensor list"

text \<open>\<^verbatim>\<open>deque(maxlen=window_size)\<close> raises ValueError for a negative bound.\<close>

definition new_deque :: "int \<Rightarrow> error + deque" where
  "new_deque window_size =
     (if window_size < 0 then Inl ValueError
      else Inr \<lparr>maxlen = Some (nat window_size), items = []\<rparr>)"

text \<open>\<^verbatim>\<open>d.append(v)\<close>: the element is added on the right; a bounded deque that is then
  longer than its bound drops its leftmost element.\<close>

definition deque_append :: "deque \<Rightarrow> tensor \<Rightarrow> deque" where
  "deque_append d v =
     (let xs = items d @ [v] in
      case maxlen d of
        None \<Rightarrow> d\<lparr>items := xs\<rparr>
      | Some k \<Rightarrow> if length xs > k then d\<lparr>items := tl xs\<rparr> else d\<lparr>items := xs\<rparr>)"

subsection \<open>gradfilter_ma\<close>

text \<open>The value of \<^verbatim>\<open>sum(grads[n])\<close>: Python starts from the integer 0 and adds the
  entries from the left, so the sum of an empty deque is a number, not a tensor.\<close>

datatype agg = Num real | Ten tensor

fun agg_add :: "agg \<Rightarrow> tensor \<Rightarrow> agg" where
  "agg_add (Num a) t = Ten (map (\<lambda>v. fadd (Fin a) v) t)"
| "agg_add (Ten s) t = Ten (t_add s t)"

definition py_sum :: "tensor list \<Rightarrow> agg" where
  "py_sum ts = foldl agg_add (Num 0) ts"

text \<open>\<^verbatim>\<open>sum(grads[n]) / len(grads[n])\<close>: dividing the number 0 by the length 0 raises
  ZeroDivisionError.\<close>

fun agg_div :: "agg \<Rightarrow> nat \<Rightarrow> error + agg" where
  "agg_div (Num a) k = (if k = 0 then Inl ZeroDivisionError else Inr (Num (a / real k)))"
| "agg_div (Ten t) k = Inr (Ten (t_divs t (real k)))"

text \<open>\<^verbatim>\<open>avg * lamb\<close> and \<^verbatim>\<open>p.grad.data + avg * lamb\<close>.\<close>

fun agg_scale :: "agg \<Rightarrow> real \<Rightarrow> agg" where
  "agg_scale (Num a) c = Num (a * c)"
| "agg_scale (Ten t) c = Ten (t_scale t c)"

fun t_add_agg :: "tensor \<Rightarrow> agg \<Rightarrow> tensor" where
  "t_add_agg g (Num a) = t_adds g a"
| "t_add_agg g (Ten t) = t_add g t"

text \<open>Lines 25 to 30: the aggregate of the window, or the exception.\<close>

definition ma_avg :: "string \<Rightarrow> tensor list \<Rightarrow> error + agg" where
  "ma_avg filter_type buf =
     (if filter_type = ''mean'' then agg_div (py_sum buf) (length buf)
      else if filter_type = ''sum'' then Inr (py_sum buf)
      else Inl ValueError)"

text \<open>Lines 21 to 31, the body of the loop. In Python \<^verbatim>\<open>not\<close> binds tighter than
  \<^verbatim>\<open>and\<close>, which binds tighter than \<^verbatim>\<open>or\<close>: the condition of line 24 is
  \<^verbatim>\<open>(not warmup) or ((len(grads[n]) == window_size) and (not trigger))\<close>.\<close>

definition ma_body ::
  "int \<Rightarrow> real \<Rightarrow> string \<Rightarrow> bool \<Rightarrow> bool \<Rightarrow>
   string \<Rightarrow> param \<Rightarrow> tensor \<Rightarrow> (string \<rightharpoonup> deque) \<Rightarrow> error option \<times> param \<times> (string \<rightharpoonup> deque)" where
  "ma_body window_size lamb filter_type warmup trigger n p g grads =
     (case grads n of
        None \<Rightarrow> (Some KeyError, p, grads)
      | Some d \<Rightarrow>
          (let d' = deque_append d g;
               grads' = grads(n \<mapsto> d')
           in if \<not> warmup \<or> (int (length (items d')) = window_size \<and> \<not> trigger) then
                (case ma_avg filter_type (items d') of
                   Inl e \<Rightarrow> (Some e, p, grads')
                 | Inr avg \<Rightarrow>
                     (None, p\<lparr>grad := Some (t_add_agg g (agg_scale avg lamb))\<rparr>, grads'))
              else (None, p, grads')))"

text \<open>Line 17: one new deque for every parameter with a gradient; a negative
  \<^verbatim>\<open>window_size\<close> raises as soon as the first deque is built.\<close>

definition ma_init :: "nn_module \<Rightarrow> int \<Rightarrow> error + (string \<rightharpoonup> deque)" where
  "ma_init m window_size =
     (if list_ex (\<lambda>(n, p). live_grad p \<noteq> None) m then
        (case new_deque window_size of
           Inl e \<Rightarrow> Inl e
         | Inr d \<Rightarrow> Inr (dict_of_params (\<lambda>p g. d) m))
      else Inr Map.empty)"

definition gradfilter_ma ::
  "nn_module \<Rightarrow> (string \<rightharpoonup> deque) option \<Rightarrow> int \<Rightarrow> real \<Rightarrow> string \<Rightarrow> bool \<Rightarrow> bool \<Rightarrow>
   error option \<times> nn_module \<times> (string \<rightharpoonup> deque)" where
  "gradfilter_ma m grads window_size lamb filter_type warmup trigger =
     (case grads of
        None \<Rightarrow>
          (case ma_init m window_size of
             Inl e \<Rightarrow> (Some e, m, Map.empty)
           | Inr grads0 \<Rightarrow>
               for_named_parameters (ma_body window_size lamb filter_type warmup trigger) m grads0)
      | Some grads0 \<Rightarrow>
          for_named_parameters (ma_body window_size lamb filter_type warmup trigger) m grads0)"


subsection \<open>gradfilter_ema\<close>

definition ema_body ::
  "real \<Rightarrow> real \<Rightarrow> bool \<Rightarrow>
   string \<Rightarrow> param \<Rightarrow> tensor \<Rightarrow> (string \<rightharpoonup> tensor) \<Rightarrow> error option \<times> param \<times> (string \<rightharpoonup> tensor)" where
  "ema_body alpha lamb trigger n p g grads =
     (if \<not> trigger then
        (case grads n of
           None \<Rightarrow> (Some KeyError, p, grads)
         | Some acc \<Rightarrow>
             (let acc' = t_add (t_scale acc alpha) (t_scale g (1 - alpha));
                  grads' = grads(n \<mapsto> acc')
              in (None,
                  p\<lparr>grad := Some (t_divs (t_add g (t_scale acc' lamb)) (1 + lamb))\<rparr>,
                  grads')))
      else (None, p, grads))"

definition gradfilter_ema ::
  "nn_module \<Rightarrow> (string \<rightharpoonup> tensor) option \<Rightarrow> real \<Rightarrow> real \<Rightarrow> bool \<Rightarrow>
   error option \<times> nn_module \<times> (string \<rightharpoonup> tensor)" where
  "gradfilter_ema m grads alpha lamb trigger =
     (let grads0 = (case grads of None \<Rightarrow> dict_of_params (\<lambda>p g. g) m | Some d \<Rightarrow> d)
      in for_named_parameters (ema_body alpha lamb trigger) m grads0)"

subsection \<open>smoother\<close>

text \<open>Lines 70 and 71, the body of the loop; the dictionary it works on is the local
  \<^verbatim>\<open>z\<close> of line 65.\<close>

definition smoother_body ::
  "real \<Rightarrow> real \<Rightarrow>
   string \<Rightarrow> param \<Rightarrow> tensor \<Rightarrow> (string \<rightharpoonup> tensor) \<Rightarrow> error option \<times> param \<times> (string \<rightharpoonup> tensor)" where
  "smoother_body beta pp n p g z =
     (case z n of
        None \<Rightarrow> (Some KeyError, p, z)
      | Some zn \<Rightarrow>
          (let zn' = t_add zn (scale_t beta (t_sub (data p) zn));
               z' = z(n \<mapsto> zn')
           in (None, p\<lparr>grad := Some (t_sub g (scale_t pp (t_sub (data p) zn')))\<rparr>, z')))"

text \<open>The snapshot of line 62 holds the gradient tensors themselves (\<^verbatim>\<open>detach()\<close> shares
  their storage), and line 71 updates the gradients in place: the entries of a snapshot
  made in this call show the gradients as the call leaves them. A dictionary passed in
  is returned as it is: the function never indexes it.\<close>

definition smoother ::
  "nn_module \<Rightarrow> (string \<rightharpoonup> tensor) option \<Rightarrow> real \<Rightarrow> real \<Rightarrow>
   error option \<times> nn_module \<times> (string \<rightharpoonup> tensor)" where
  "smoother m grads beta pp =
     (let z = dict_of_params (\<lambda>p g. data p) m
      in case for_named_parameters (smoother_body beta pp) m z of
           (e, m', z') \<Rightarrow>
             (e, m', case grads of None \<Rightarrow> dict_of_params (\<lambda>p g. g) m' | Some d \<Rightarrow> d))"

subsection \<open>gradfilter_kalman\<close>

text \<open>The inner dictionary with the keys \<^verbatim>\<open>"x"\<close> and \<^verbatim>\<open>"P"\<close>.\<close>

record kalman_entry =
  x_est :: tensor
  P_var :: tensor

definition kalman_body ::
  "real \<Rightarrow> real \<Rightarrow> real \<Rightarrow>
   string \<Rightarrow> param \<Rightarrow> tensor \<Rightarrow> (string \<rightharpoonup> kalman_entry) \<Rightarrow>
   error option \<times> param \<times> (string \<rightharpoonup> kalman_entry)" where
  "kalman_body process_noise measurement_noise lamb n p g grads =
     (case grads n of
        None \<Rightarrow> (Some KeyError, p, grads)
      | Some s \<Rightarrow>
          (let x_pred = x_est s;
               P_pred = t_adds (P_var s) process_noise;
               y = t_sub g x_pred;
               S = t_adds P_pred measurement_noise;
               K = t_div P_pred S;
               x = t_add x_pred (t_mul K y);
               P = t_mul (s_sub_t 1 K) P_pred;
               grads' = grads(n \<mapsto> \<lparr>x_est = x, P_var = P\<rparr>)
           in (None, p\<lparr>grad := Some (t_add g (t_scale x lamb))\<rparr>, grads')))"

definition kalman_init :: "real \<Rightarrow> nn_module \<Rightarrow> (string \<rightharpoonup> kalman_entry)" where
  "kalman_init measurement_noise m =
     dict_of_params
       (\<lambda>p g. \<lparr>x_est = zeros_like g, P_var = t_scale (ones_like g) measurement_noise\<rparr>) m"

definition gradfilter_kalman ::
  "nn_module \<Rightarrow> (string \<rightharpoonup> kalman_entry) option \<Rightarrow> real \<Rightarrow> real \<Rightarrow> real \<Rightarrow>
   error option \<times> nn_module \<times> (string \<rightharpoonup> kalman_entry)" where
  "gradfilter_kalman m grads process_noise measurement_noise lamb =
     (let grads0 = (case grads of None \<Rightarrow> kalman_init measurement_noise m | Some d \<Rightarrow> d)
      in for_named_parameters (kalman_body process_noise measurement_noise lamb) m grads0)"

subsection \<open>The filter selection of main_transformer.py\<close>





subsection \<open>Well-formed inputs\<close>

text \<open>The parameters that the loops visit.\<close>

definition live_params :: "nn_module \<Rightarrow> nn_module" where
  "live_params m = filter (\<lambda>(n, p). live_grad p \<noteq> None) m"




text \<open>Every parameter with a live gradient has an entry in the state dictionary.\<close>

definition covers :: "nn_module \<Rightarrow> (string \<rightharpoonup> 'v) \<Rightarrow> bool" where
  "covers m st = list_all (\<lambda>(n, p). live_grad p = None \<or> st n \<noteq> None) m"










subsection \<open>Example inputs\<close>

text \<open>Two one-element parameters.\<close>

definition w_one :: param where
  "w_one = \<lparr>requires_grad = True, data = [Fin 3], grad = Some [Fin 1]\<rparr>"

definition w_scalar :: param where
  "w_scalar = \<lparr>requires_grad = True, data = [Fin 0], grad = Some [Fin 1]\<rparr>"


definition w_inf :: param where
  "w_inf = \<lparr>requires_grad = True, data = [Fin 0], grad = Some [PInf]\<rparr>"

text \<open>A module with a frozen parameter, a parameter without a gradient and a trained one.\<close>

definition frozen_and_live :: nn_module where
  "frozen_and_live =
     [(''frozen'', \<lparr>requires_grad = False, data = [Fin 3], grad = Some [Fin 1]\<rparr>),
      (''bias'', \<lparr>requires_grad = True, data = [Fin 4], grad = None\<rparr>),
      (''w'', w_scalar)]"




section \<open>Properties\<close>

subsection \<open>The loop over the parameters\<close>

lemma live_grad_Some: "live_grad p = Some g \<Longrightarrow> grad p = Some g"
  by (simp add: live_grad_def split: if_splits)


lemma fnp_id:
  assumes "\<And>n p g. (n, p) \<in> set m \<Longrightarrow> live_grad p = Some g \<Longrightarrow> body n p g st = (None, p, st)"
  shows "for_named_parameters body m st = (None, m, st)"
  using assms
proof (induction m)
  case Nil
  show ?case by simp
next
  case (Cons np ps)
  obtain n p where np: "np = (n, p)" by (cases np)
  have rest: "for_named_parameters body ps st = (None, ps, st)"
    using Cons by simp
  show ?case
  proof (cases "live_grad p")
    case None
    with rest np show ?thesis by simp
  next
    case (Some g)
    with Cons.prems np have "body n p g st = (None, p, st)" by simp
    with Some rest np show ?thesis by simp
  qed
qed

lemma fnp_state_id:
  assumes "\<And>n p g. (n, p) \<in> set m \<Longrightarrow> live_grad p = Some g \<Longrightarrow>
             fst (body n p g st) = None \<and> snd (snd (body n p g st)) = st"
  shows "fst (for_named_parameters body m st) = None \<and>
         snd (snd (for_named_parameters body m st)) = st"
  using assms
proof (induction m)
  case Nil
  show ?case by simp
next
  case (Cons np ps)
  obtain n p where np: "np = (n, p)" by (cases np)
  have rest: "fst (for_named_parameters body ps st) = None \<and>
              snd (snd (for_named_parameters body ps st)) = st"
    using Cons by simp
  show ?case
  proof (cases "live_grad p")
    case None
    with rest np show ?thesis by (cases "for_named_parameters body ps st") simp
  next
    case (Some g)
    with Cons.prems np have "fst (body n p g st) = None \<and> snd (snd (body n p g st)) = st"
      by simp
    then obtain p' where "body n p g st = (None, p', st)"
      by (cases "body n p g st") auto
    with Some rest np show ?thesis by (cases "for_named_parameters body ps st") simp
  qed
qed

lemma fnp_module_inv:
  assumes "\<And>n p g st. (n, p) \<in> set m \<Longrightarrow> live_grad p = Some g \<Longrightarrow> I st \<Longrightarrow>
             fst (snd (body n p g st)) = p \<and> I (snd (snd (body n p g st)))"
    and "I st"
  shows "fst (snd (for_named_parameters body m st)) = m"
  using assms
proof (induction m arbitrary: st)
  case Nil
  show ?case by simp
next
  case (Cons np ps)
  obtain n p where np: "np = (n, p)" by (cases np)
  have step: "\<And>n p g st. (n, p) \<in> set ps \<Longrightarrow> live_grad p = Some g \<Longrightarrow> I st \<Longrightarrow>
             fst (snd (body n p g st)) = p \<and> I (snd (snd (body n p g st)))"
    using Cons.prems(1) by simp
  show ?case
  proof (cases "live_grad p")
    case None
    have "fst (snd (for_named_parameters body ps st)) = ps"
      using Cons.IH [OF step Cons.prems(2)] by simp
    with None np show ?thesis by (cases "for_named_parameters body ps st") simp
  next
    case (Some g)
    obtain e p' st' where b: "body n p g st = (e, p', st')"
      by (cases "body n p g st") auto
    have "fst (snd (body n p g st)) = p \<and> I (snd (snd (body n p g st)))"
      using Cons.prems(1) [of n p g st] np Some Cons.prems(2) by simp
    with b have p': "p' = p" and I': "I st'" by simp_all
    have "fst (snd (for_named_parameters body ps st')) = ps"
      using Cons.IH [OF step I'] by simp
    with Some np b p' show ?thesis
      by (cases e; cases "for_named_parameters body ps st'") simp_all
  qed
qed

lemma dict_of_params_foldl_notin:
  "k \<notin> fst ` set m \<Longrightarrow>
   foldl (\<lambda>d (n, p). case live_grad p of None \<Rightarrow> d | Some g \<Rightarrow> d(n \<mapsto> f p g)) d0 m k = d0 k"
  by (induction m arbitrary: d0) (auto split: option.splits)

lemma dict_of_params_foldl_in:
  "distinct (map fst m) \<Longrightarrow> (n, p) \<in> set m \<Longrightarrow> live_grad p = Some g \<Longrightarrow>
   foldl (\<lambda>d (n, p). case live_grad p of None \<Rightarrow> d | Some g \<Rightarrow> d(n \<mapsto> f p g)) d0 m n
     = Some (f p g)"
proof (induction m arbitrary: d0)
  case Nil
  then show ?case by simp
next
  case (Cons np ps)
  show ?case
  proof (cases "np = (n, p)")
    case True
    have "n \<notin> fst ` set ps" using Cons.prems(1) True by simp
    then show ?thesis using True Cons.prems(3)
      by (simp add: dict_of_params_foldl_notin)
  next
    case False
    then have "(n, p) \<in> set ps" using Cons.prems(2) by simp
    moreover have "distinct (map fst ps)" using Cons.prems(1) by simp
    ultimately show ?thesis using Cons.IH Cons.prems(3) by simp
  qed
qed

lemma dict_of_params_in:
  "distinct (map fst m) \<Longrightarrow> (n, p) \<in> set m \<Longrightarrow> live_grad p = Some g \<Longrightarrow>
   dict_of_params f m n = Some (f p g)"
  unfolding dict_of_params_def by (rule dict_of_params_foldl_in)

lemma dict_of_params_notin:
  "k \<notin> fst ` set m \<Longrightarrow> dict_of_params f m k = None"
  unfolding dict_of_params_def by (simp add: dict_of_params_foldl_notin)


lemma fnp_names: "map fst (fst (snd (for_named_parameters body m st))) = map fst m"
proof (induction m arbitrary: st)
  case Nil
  show ?case by simp
next
  case (Cons np ps)
  obtain n p where np: "np = (n, p)" by (cases np)
  show ?case
  proof (cases "live_grad p")
    case None
    with np Cons.IH [of st] show ?thesis
      by (cases "for_named_parameters body ps st") simp
  next
    case (Some g)
    obtain e p' st' where b: "body n p g st = (e, p', st')"
      by (cases "body n p g st") auto
    with np Some Cons.IH [of st'] show ?thesis
      by (cases e; cases "for_named_parameters body ps st'") simp_all
  qed
qed

lemma fnp_length: "length (fst (snd (for_named_parameters body m st))) = length m"
  using fnp_names [of body m st] by (metis length_map)

lemma fnp_skipped_param:
  "j < length m \<Longrightarrow> live_grad (snd (m ! j)) = None \<Longrightarrow>
   fst (snd (for_named_parameters body m st)) ! j = m ! j"
proof (induction m arbitrary: st j)
  case Nil
  then show ?case by simp
next
  case (Cons np ps)
  obtain n p where np: "np = (n, p)" by (cases np)
  show ?case
  proof (cases j)
    case 0
    with Cons.prems np show ?thesis
      by (cases "for_named_parameters body ps st") simp
  next
    case (Suc i)
    with Cons.prems have i: "i < length ps" "live_grad (snd (ps ! i)) = None" by simp_all
    show ?thesis
    proof (cases "live_grad p")
      case None
      with np Suc Cons.IH [OF i, of st] show ?thesis
        by (cases "for_named_parameters body ps st") simp
    next
      case (Some g)
      obtain e p' st' where b: "body n p g st = (e, p', st')"
        by (cases "body n p g st") auto
      with np Some Suc Cons.IH [OF i, of st'] show ?thesis
        by (cases e; cases "for_named_parameters body ps st'") simp_all
    qed
  qed
qed

text \<open>A body that writes only the entry of its own parameter.\<close>

lemma fnp_state_frame:
  assumes loc: "\<And>n p g st k. k \<noteq> n \<Longrightarrow> snd (snd (body n p g st)) k = st k"
    and "\<And>p. (k, p) \<in> set m \<Longrightarrow> live_grad p = None"
  shows "snd (snd (for_named_parameters body m st)) k = st k"
  using assms(2)
proof (induction m arbitrary: st)
  case Nil
  show ?case by simp
next
  case (Cons np ps)
  obtain n p where np: "np = (n, p)" by (cases np)
  have rest: "\<And>st. snd (snd (for_named_parameters body ps st)) k = st k"
    using Cons by simp
  show ?case
  proof (cases "live_grad p")
    case None
    with np rest [of st] show ?thesis
      by (cases "for_named_parameters body ps st") simp
  next
    case (Some g)
    with Cons.prems [of p] np have kn: "k \<noteq> n" by auto
    obtain e p' st' where b: "body n p g st = (e, p', st')"
      by (cases "body n p g st") auto
    have "st' k = st k" using loc [OF kn, of p g st] b by simp
    with np Some b rest [of st'] show ?thesis
      by (cases e; cases "for_named_parameters body ps st'") simp_all
  qed
qed

lemma fnp_key_result:
  assumes loc: "\<And>n p g st k. k \<noteq> n \<Longrightarrow> snd (snd (body n p g st)) k = st k"
    and det: "\<And>n p g st. fst (body n p g st) = None \<Longrightarrow>
                snd (snd (body n p g st)) n = F n p g (st n)"
    and "distinct (map fst m)" and "(n, p) \<in> set m" and "live_grad p = Some g"
    and "fst (for_named_parameters body m st) = None"
  shows "snd (snd (for_named_parameters body m st)) n = F n p g (st n)"
  using assms(3-6)
proof (induction m arbitrary: st)
  case Nil
  then show ?case by simp
next
  case (Cons np ps)
  obtain n0 p0 where np: "np = (n0, p0)" by (cases np)
  have d: "distinct (map fst ps)" and notin: "n0 \<notin> fst ` set ps"
    using Cons.prems(1) np by simp_all
  show ?case
  proof (cases "live_grad p0")
    case None
    then have "(n, p) \<in> set ps" using Cons.prems(2,3) np by auto
    moreover have "fst (for_named_parameters body ps st) = None"
      using Cons.prems(4) np None by (cases "for_named_parameters body ps st") simp
    ultimately have "snd (snd (for_named_parameters body ps st)) n = F n p g (st n)"
      using Cons.IH d Cons.prems(3) by simp
    with np None show ?thesis by (cases "for_named_parameters body ps st") simp
  next
    case (Some g0)
    obtain e p' st' where b: "body n0 p0 g0 st = (e, p', st')"
      by (cases "body n0 p0 g0 st") auto
    have e: "e = None" using Cons.prems(4) np Some b by (cases e) simp_all
    have ok: "fst (for_named_parameters body ps st') = None"
      using Cons.prems(4) np Some b e by (cases "for_named_parameters body ps st'") simp
    have fin: "snd (snd (for_named_parameters body (np # ps) st))
                 = snd (snd (for_named_parameters body ps st'))"
      using np Some b e by (cases "for_named_parameters body ps st'") simp
    show ?thesis
    proof (cases "(n, p) = (n0, p0)")
      case True
      then have g0: "g0 = g" using Some Cons.prems(3) by simp
      have "st' n = F n p g (st n)"
        using det [of n0 p0 g0 st] b e True g0 by simp
      moreover have "snd (snd (for_named_parameters body ps st')) n = st' n"
      proof (rule fnp_state_frame [OF loc])
        fix q assume "(n, q) \<in> set ps"
        then have "n \<in> fst ` set ps" by force
        with notin True show "live_grad q = None" by simp
      qed
      ultimately show ?thesis using fin by simp
    next
      case False
      then have mem: "(n, p) \<in> set ps" using Cons.prems(2) np by auto
      then have "n \<in> fst ` set ps" by force
      with notin have "n \<noteq> n0" by auto
      then have "st' n = st n" using loc [of n n0 p0 g0 st] b by simp
      moreover have "snd (snd (for_named_parameters body ps st')) n = F n p g (st' n)"
        using Cons.IH [OF d mem Cons.prems(3) ok] .
      ultimately show ?thesis using fin by simp
    qed
  qed
qed

lemma fnp_no_error:
  assumes "\<And>n p g st. (n, p) \<in> set m \<Longrightarrow> live_grad p = Some g \<Longrightarrow> I st \<Longrightarrow>
             fst (body n p g st) = None \<and> I (snd (snd (body n p g st)))"
    and "I st"
  shows "fst (for_named_parameters body m st) = None \<and>
         I (snd (snd (for_named_parameters body m st)))"
  using assms
proof (induction m arbitrary: st)
  case Nil
  then show ?case by simp
next
  case (Cons np ps)
  obtain n p where np: "np = (n, p)" by (cases np)
  have step: "\<And>n p g st. (n, p) \<in> set ps \<Longrightarrow> live_grad p = Some g \<Longrightarrow> I st \<Longrightarrow>
             fst (body n p g st) = None \<and> I (snd (snd (body n p g st)))"
    using Cons.prems(1) by simp
  show ?case
  proof (cases "live_grad p")
    case None
    with np Cons.IH [OF step Cons.prems(2)] show ?thesis
      by (cases "for_named_parameters body ps st") simp
  next
    case (Some g)
    obtain e p' st' where b: "body n p g st = (e, p', st')"
      by (cases "body n p g st") auto
    have "fst (body n p g st) = None \<and> I (snd (snd (body n p g st)))"
      using Cons.prems(1) [of n p g st] np Some Cons.prems(2) by simp
    with b have e: "e = None" and I': "I st'" by simp_all
    with np Some b Cons.IH [OF step I'] show ?thesis
      by (cases "for_named_parameters body ps st'") simp
  qed
qed

text \<open>Parameters without a live gradient have no influence on the exception and on the state.\<close>

lemma fnp_live_only:
  "fst (for_named_parameters body (live_params m) st) = fst (for_named_parameters body m st)
   \<and> snd (snd (for_named_parameters body (live_params m) st))
     = snd (snd (for_named_parameters body m st))"
proof (induction m arbitrary: st)
  case Nil
  show ?case by (simp add: live_params_def)
next
  case (Cons np ps)
  obtain n p where np: "np = (n, p)" by (cases np)
  show ?case
  proof (cases "live_grad p")
    case None
    then have "live_params (np # ps) = live_params ps"
      using np by (simp add: live_params_def)
    with np None Cons.IH [of st] show ?thesis
      by (cases "for_named_parameters body ps st") simp
  next
    case (Some g)
    then have l: "live_params (np # ps) = (n, p) # live_params ps"
      using np by (simp add: live_params_def)
    obtain e p' st' where b: "body n p g st = (e, p', st')"
      by (cases "body n p g st") auto
    with np Some Cons.IH [of st'] show ?thesis
      unfolding l
      by (cases e; cases "for_named_parameters body ps st'";
          cases "for_named_parameters body (live_params ps) st'") simp_all
  qed
qed

lemma dict_of_params_live_only: "dict_of_params f (live_params m) = dict_of_params f m"
proof -
  have "foldl (\<lambda>d (n, p). case live_grad p of None \<Rightarrow> d | Some g \<Rightarrow> d(n \<mapsto> f p g)) d0
          (filter (\<lambda>(n, p). live_grad p \<noteq> None) m)
        = foldl (\<lambda>d (n, p). case live_grad p of None \<Rightarrow> d | Some g \<Rightarrow> d(n \<mapsto> f p g)) d0 m"
    for d0
    by (induction m arbitrary: d0) (auto split: option.splits)
  then show ?thesis by (simp add: dict_of_params_def live_params_def)
qed

lemma dict_of_params_dead:
  "(\<And>p. (k, p) \<in> set m \<Longrightarrow> live_grad p = None) \<Longrightarrow> dict_of_params f m k = None"
proof -
  assume a: "\<And>p. (k, p) \<in> set m \<Longrightarrow> live_grad p = None"
  have "k \<notin> fst ` set (live_params m)"
    using a by (auto simp: live_params_def)
  then have "dict_of_params f (live_params m) k = None"
    by (rule dict_of_params_notin)
  then show ?thesis unfolding dict_of_params_live_only .
qed



lemma dead_name:
  assumes "distinct (map fst m)" "j < length m" "live_grad (snd (m ! j)) = None"
    "(fst (m ! j), q) \<in> set m"
  shows "live_grad q = None"
proof -
  obtain i where i: "i < length m" "m ! i = (fst (m ! j), q)"
    using assms(4) by (auto simp: in_set_conv_nth)
  then have "map fst m ! i = map fst m ! j" using assms(2) by simp
  then have "i = j"
    using assms(1,2) i(1) nth_eq_iff_index_eq [of "map fst m" i j] by simp
  with i(2) assms(3) show ?thesis by (metis snd_conv)
qed

lemma fnp_live_only_module:
  "live_params (fst (snd (for_named_parameters body (live_params m) st)))
     = live_params (fst (snd (for_named_parameters body m st)))"
proof (induction m arbitrary: st)
  case Nil
  show ?case by (simp add: live_params_def)
next
  case (Cons np ps)
  obtain n p where np: "np = (n, p)" by (cases np)
  have idem: "live_params (live_params ps) = live_params ps"
    by (simp add: live_params_def)
  show ?case
  proof (cases "live_grad p")
    case None
    then have l: "live_params (np # ps) = live_params ps"
      using np by (simp add: live_params_def)
    have "live_params ((n, p) # qs) = live_params qs" for qs
      using None by (simp add: live_params_def)
    with np None Cons.IH [of st] show ?thesis
      unfolding l by (cases "for_named_parameters body ps st") simp
  next
    case (Some g)
    then have l: "live_params (np # ps) = (n, p) # live_params ps"
      using np by (simp add: live_params_def)
    obtain e p' st' where b: "body n p g st = (e, p', st')"
      by (cases "body n p g st") auto
    have c: "live_params ((n, p') # qs)
               = (if live_grad p' \<noteq> None then [(n, p')] else []) @ live_params qs" for qs
      by (simp add: live_params_def)
    show ?thesis
    proof (cases e)
      case None
      with np Some b Cons.IH [of st'] show ?thesis
        unfolding l
        by (cases "for_named_parameters body ps st'";
            cases "for_named_parameters body (live_params ps) st'")
           (simp add: c)
    next
      case (Some err)
      with np \<open>live_grad p = Some g\<close> b idem show ?thesis
        unfolding l by (simp add: c)
    qed
  qed
qed

lemma coversD: "covers m st \<Longrightarrow> (n, p) \<in> set m \<Longrightarrow> live_grad p = Some g \<Longrightarrow> \<exists>v. st n = Some v"
  by (auto simp: covers_def list_all_iff)

lemma covers_upd: "covers m st \<Longrightarrow> covers m (st(n \<mapsto> v))"
  unfolding covers_def list_all_iff by (fastforce split: if_splits)

lemma covers_dict_of_params: "distinct (map fst m) \<Longrightarrow> covers m (dict_of_params f m)"
  unfolding covers_def list_all_iff
proof (intro ballI)
  fix np assume d: "distinct (map fst m)" and m: "np \<in> set m"
  obtain n p where np: "np = (n, p)" by (cases np)
  show "case np of (n, p) \<Rightarrow> live_grad p = None \<or> dict_of_params f m n \<noteq> None"
  proof (cases "live_grad p")
    case None
    with np show ?thesis by simp
  next
    case (Some g)
    have "dict_of_params f m n = Some (f p g)"
      using d m np Some by (intro dict_of_params_in) simp_all
    with np show ?thesis by simp
  qed
qed

subsection \<open>Arithmetic on elements and tensors\<close>

lemma fadd_zero_right [simp]: "fadd v (Fin 0) = v"
  by (cases v) simp_all

lemma fadd_zero_left [simp]: "fadd (Fin 0) v = v"
  by (cases v) simp_all

lemma fsub_Fin [simp]: "fsub (Fin a) (Fin b) = Fin (a - b)"
  by (simp add: fsub_def)

lemma fsub_zero_right [simp]: "fsub v (Fin 0) = v"
  by (cases v) (simp_all add: fsub_def)



lemma fmul_one_right [simp]: "fmul v (Fin 1) = v"
  by (cases v) (simp_all add: inf_of_sign_def)

lemma fdiv_one_right [simp]: "fdiv v (Fin 1) = v"
  by (cases v) (simp_all add: inf_of_sign_def)




lemma length_t_ops [simp]:
  "length (t_add a b) = min (length a) (length b)"
  "length (t_sub a b) = min (length a) (length b)"
  "length (t_mul a b) = min (length a) (length b)"
  "length (t_div a b) = min (length a) (length b)"
  "length (t_scale a c) = length a"
  "length (scale_t c a) = length a"
  "length (t_divs a c) = length a"
  "length (t_adds a c) = length a"
  "length (s_sub_t c a) = length a"
  by (simp_all add: t_add_def t_sub_def t_mul_def t_div_def t_scale_def scale_t_def t_divs_def
      t_adds_def s_sub_t_def)












subsection \<open>The bypass of gradfilter_ema, the smoother, a run of gradfilter_ma\<close>

text \<open>C5. A call of \<^verbatim>\<open>gradfilter_ema\<close> with \<^verbatim>\<open>trigger = True\<close> on an existing state
  returns without an exception and leaves every gradient and every stored accumulator
  as it was, whatever \<^verbatim>\<open>alpha\<close> and \<^verbatim>\<open>lamb\<close> are.\<close>

theorem ema_trigger_bypass:
  "gradfilter_ema m (Some st) alpha lamb True = (None, m, st)"
  by (simp add: gradfilter_ema_def ema_body_def fnp_id)









text \<open>C4. One scalar parameter whose gradient is 1.0 at each of three calls of
  \<^verbatim>\<open>gradfilter_ma\<close> with \<^verbatim>\<open>window_size = 2\<close>, \<^verbatim>\<open>lamb = 1.0\<close>, the mean, warmup on and
  trigger off, the state of each call passed to the next: the first call leaves the
  gradient 1.0 (window [1.0]), the second makes it 2.0 (window [1.0, 1.0]), the third
  makes it 2.0 again (the oldest entry evicted, window [1.0, 1.0]).\<close>

theorem ma_scenario:
  "gradfilter_ma [(''w'', w_scalar)] None 2 1 ''mean'' True False
     = (None, [(''w'', w_scalar)], [''w'' \<mapsto> \<lparr>maxlen = Some 2, items = [[Fin 1]]\<rparr>])
   \<and> gradfilter_ma [(''w'', w_scalar)]
       (Some [''w'' \<mapsto> \<lparr>maxlen = Some 2, items = [[Fin 1]]\<rparr>]) 2 1 ''mean'' True False
     = (None, [(''w'', w_scalar\<lparr>grad := Some [Fin 2]\<rparr>)],
        [''w'' \<mapsto> \<lparr>maxlen = Some 2, items = [[Fin 1], [Fin 1]]\<rparr>])
   \<and> gradfilter_ma [(''w'', w_scalar)]
       (Some [''w'' \<mapsto> \<lparr>maxlen = Some 2, items = [[Fin 1], [Fin 1]]\<rparr>]) 2 1 ''mean'' True False
     = (None, [(''w'', w_scalar\<lparr>grad := Some [Fin 2]\<rparr>)],
        [''w'' \<mapsto> \<lparr>maxlen = Some 2, items = [[Fin 1], [Fin 1]]\<rparr>])"
  by (simp add: gradfilter_ma_def ma_init_def new_deque_def dict_of_params_def live_grad_def
      w_scalar_def ma_body_def deque_append_def ma_avg_def py_sum_def t_add_def t_divs_def
      t_scale_def)

subsection \<open>The trigger of gradfilter_ma\<close>

lemma ma_body_local:
  "k \<noteq> n \<Longrightarrow> snd (snd (ma_body ws lamb ft warmup trigger n p g st)) k = st k"
  by (simp add: ma_body_def Let_def split: option.splits sum.splits)

lemma ma_body_bypass:
  "ma_body ws lamb ft True True n p g st =
     (case st n of None \<Rightarrow> (Some KeyError, p, st)
      | Some d \<Rightarrow> (None, p, st(n \<mapsto> deque_append d g)))"
  by (simp add: ma_body_def Let_def split: option.splits)

lemma ma_loop_bypass_module:
  "fst (snd (for_named_parameters (ma_body ws lamb ft True True) m st)) = m"
  by (rule fnp_module_inv [where I = "\<lambda>st. True"])
    (simp_all add: ma_body_bypass split: option.splits)

lemma ma_loop_bypass_state:
  assumes "distinct (map fst m)" "covers m st" "(n, p) \<in> set m" "live_grad p = Some g"
    "st n = Some d"
  shows "fst (for_named_parameters (ma_body ws lamb ft True True) m st) = None
         \<and> snd (snd (for_named_parameters (ma_body ws lamb ft True True) m st)) n
           = Some (deque_append d g)"
proof -
  let ?body = "ma_body ws lamb ft True True"
  have ok: "fst (for_named_parameters ?body m st) = None
            \<and> covers m (snd (snd (for_named_parameters ?body m st)))"
  proof (rule fnp_no_error [where I = "covers m"])
    fix n p g and st :: "string \<rightharpoonup> deque"
    assume "(n, p) \<in> set m" "live_grad p = Some g" "covers m st"
    then obtain v where "st n = Some v" using coversD by blast
    with \<open>covers m st\<close>
    show "fst (?body n p g st) = None \<and> covers m (snd (snd (?body n p g st)))"
      by (simp add: ma_body_bypass covers_upd)
  qed (rule assms(2))
  have "snd (snd (for_named_parameters ?body m st)) n
          = map_option (\<lambda>d. deque_append d g) (st n)"
    using assms(1,3,4) ok
    by (intro fnp_key_result [where F = "\<lambda>n p g v. map_option (\<lambda>d. deque_append d g) v"]
          ma_body_local)
       (simp_all add: ma_body_bypass split: option.splits)
  with ok assms(5) show ?thesis by simp
qed

lemma ma_init_ok:
  "0 \<le> ws \<Longrightarrow> ma_init m ws = Inr (dict_of_params (\<lambda>p g. \<lparr>maxlen = Some (nat ws), items = []\<rparr>) m)"
proof -
  assume ws: "0 \<le> ws"
  have "dict_of_params (\<lambda>p g. d) m = Map.empty"
    if "\<not> list_ex (\<lambda>(n, p). live_grad p \<noteq> None) m" for d :: deque
    using that by (intro ext dict_of_params_dead) (auto simp: list_ex_iff)
  with ws show ?thesis by (auto simp: ma_init_def new_deque_def)
qed

lemma deque_append_last:
  "maxlen d \<noteq> Some 0 \<Longrightarrow>
   items (deque_append d g) \<noteq> [] \<and> last (items (deque_append d g)) = g"
  by (cases "items d") (auto simp: deque_append_def Let_def split: option.splits)

text \<open>C2. The claim fails on the code. With \<^verbatim>\<open>warmup = False\<close> the condition of line 24
  holds whatever \<^verbatim>\<open>trigger\<close> is: a call with \<^verbatim>\<open>trigger = True\<close> on a window holding 1.0
  and a gradient 1.0 appends the gradient and then filters it, leaving the gradient
  2.0.\<close>

theorem ma_trigger_not_bypassed:
  "grad w_scalar = Some [Fin 1]
   \<and> gradfilter_ma [(''w'', w_scalar)]
       (Some [''w'' \<mapsto> \<lparr>maxlen = Some 2, items = [[Fin 1]]\<rparr>]) 2 1 ''mean'' False True
     = (None, [(''w'', w_scalar\<lparr>grad := Some [Fin 2]\<rparr>)],
        [''w'' \<mapsto> \<lparr>maxlen = Some 2, items = [[Fin 1], [Fin 1]]\<rparr>])"
  by (simp add: gradfilter_ma_def live_grad_def
      w_scalar_def ma_body_def deque_append_def ma_avg_def py_sum_def t_add_def t_divs_def
      t_scale_def)

text \<open>With \<^verbatim>\<open>warmup = True\<close> the trigger does bypass the filter: no gradient is modified,
  and the buffers receive the current gradients.\<close>

lemma ma_trigger_bypass_in_warmup:
  assumes "distinct (map fst m)" and "(n, p) \<in> set m" and "live_grad p = Some g"
  shows "fst (snd (gradfilter_ma m grads ws lamb ft True True)) = m
         \<and> (\<forall>st d. grads = Some st \<and> covers m st \<and> st n = Some d \<longrightarrow>
              fst (gradfilter_ma m grads ws lamb ft True True) = None
              \<and> snd (snd (gradfilter_ma m grads ws lamb ft True True)) n
                  = Some (deque_append d g))
         \<and> (grads = None \<and> 0 \<le> ws \<longrightarrow>
              fst (gradfilter_ma m grads ws lamb ft True True) = None
              \<and> snd (snd (gradfilter_ma m grads ws lamb ft True True)) n
                  = Some (deque_append \<lparr>maxlen = Some (nat ws), items = []\<rparr> g))
         \<and> (\<forall>d. maxlen d \<noteq> Some 0 \<longrightarrow>
              items (deque_append d g) \<noteq> [] \<and> last (items (deque_append d g)) = g)"
proof (intro conjI allI impI)
  show "fst (snd (gradfilter_ma m grads ws lamb ft True True)) = m"
    by (simp add: gradfilter_ma_def ma_loop_bypass_module split: option.splits sum.splits)
next
  fix st d
  assume h: "grads = Some st \<and> covers m st \<and> st n = Some d"
  then have "fst (for_named_parameters (ma_body ws lamb ft True True) m st) = None
         \<and> snd (snd (for_named_parameters (ma_body ws lamb ft True True) m st)) n
           = Some (deque_append d g)"
    using assms by (intro ma_loop_bypass_state) simp_all
  with h show "fst (gradfilter_ma m grads ws lamb ft True True) = None"
    and "snd (snd (gradfilter_ma m grads ws lamb ft True True)) n = Some (deque_append d g)"
    by (simp_all add: gradfilter_ma_def)
next
  assume h: "grads = None \<and> 0 \<le> ws"
  let ?d = "\<lparr>maxlen = Some (nat ws), items = []\<rparr>"
  let ?st = "dict_of_params (\<lambda>p g. ?d) m"
  have "?st n = Some ?d"
    using assms by (intro dict_of_params_in [where p = p and g = g]) simp_all
  then have "fst (for_named_parameters (ma_body ws lamb ft True True) m ?st) = None
         \<and> snd (snd (for_named_parameters (ma_body ws lamb ft True True) m ?st)) n
           = Some (deque_append ?d g)"
    using assms by (intro ma_loop_bypass_state covers_dict_of_params) simp_all
  with h show "fst (gradfilter_ma m grads ws lamb ft True True) = None"
    and "snd (snd (gradfilter_ma m grads ws lamb ft True True)) n = Some (deque_append ?d g)"
    by (simp_all add: gradfilter_ma_def ma_init_ok)
next
  fix d :: deque
  assume "maxlen d \<noteq> Some 0"
  then show "items (deque_append d g) \<noteq> []" and "last (items (deque_append d g)) = g"
    using deque_append_last by blast+
qed

subsection \<open>Unrecognized configuration\<close>







subsection \<open>Skipped parameters\<close>

lemma ema_body_local:
  "k \<noteq> n \<Longrightarrow> snd (snd (ema_body alpha lamb trigger n p g st)) k = st k"
  by (simp add: ema_body_def Let_def split: option.splits)

lemma kalman_body_local:
  "k \<noteq> n \<Longrightarrow> snd (snd (kalman_body Q R lamb n p g st)) k = st k"
  by (simp add: kalman_body_def Let_def split: option.splits)

lemma ma_init_live_only:
  "ma_init (live_params m) ws = ma_init m ws"
proof -
  have "list_ex (\<lambda>(n, p). live_grad p \<noteq> None) (live_params m)
        = list_ex (\<lambda>(n, p). live_grad p \<noteq> None) m"
    by (auto simp: list_ex_iff live_params_def)
  then show ?thesis
    unfolding ma_init_def dict_of_params_live_only by simp
qed

lemma ma_skip:
  assumes "distinct (map fst m)" "j < length m" "live_grad (snd (m ! j)) = None"
  shows "fst (snd (gradfilter_ma m grads ws lamb ft warmup trigger)) ! j = m ! j"
    and "snd (snd (gradfilter_ma m grads ws lamb ft warmup trigger)) (fst (m ! j))
           = (case grads of None \<Rightarrow> None | Some st \<Rightarrow> st (fst (m ! j)))"
    and "fst (gradfilter_ma (live_params m) grads ws lamb ft warmup trigger)
           = fst (gradfilter_ma m grads ws lamb ft warmup trigger)"
    and "snd (snd (gradfilter_ma (live_params m) grads ws lamb ft warmup trigger))
           = snd (snd (gradfilter_ma m grads ws lamb ft warmup trigger))"
proof -
  let ?body = "ma_body ws lamb ft warmup trigger"
  have dead: "\<And>q. (fst (m ! j), q) \<in> set m \<Longrightarrow> live_grad q = None"
    using dead_name [OF assms] .
  have frame: "snd (snd (for_named_parameters ?body m st)) (fst (m ! j)) = st (fst (m ! j))" for st
    by (rule fnp_state_frame [OF ma_body_local dead])
  show "fst (snd (gradfilter_ma m grads ws lamb ft warmup trigger)) ! j = m ! j"
    using assms(2,3)
    by (simp add: gradfilter_ma_def fnp_skipped_param split: option.splits sum.splits)
  have "dict_of_params f m (fst (m ! j)) = None" for f :: "param \<Rightarrow> tensor \<Rightarrow> deque"
    by (rule dict_of_params_dead [OF dead])
  then show "snd (snd (gradfilter_ma m grads ws lamb ft warmup trigger)) (fst (m ! j))
           = (case grads of None \<Rightarrow> None | Some st \<Rightarrow> st (fst (m ! j)))"
    by (auto simp: gradfilter_ma_def frame ma_init_def split: option.splits sum.splits if_splits)
  show "fst (gradfilter_ma (live_params m) grads ws lamb ft warmup trigger)
           = fst (gradfilter_ma m grads ws lamb ft warmup trigger)"
    by (simp add: gradfilter_ma_def ma_init_live_only fnp_live_only split: option.splits sum.splits)
  show "snd (snd (gradfilter_ma (live_params m) grads ws lamb ft warmup trigger))
           = snd (snd (gradfilter_ma m grads ws lamb ft warmup trigger))"
    by (simp add: gradfilter_ma_def ma_init_live_only fnp_live_only split: option.splits sum.splits)
qed

lemma ema_skip:
  assumes "distinct (map fst m)" "j < length m" "live_grad (snd (m ! j)) = None"
  shows "fst (snd (gradfilter_ema m grads alpha lamb trigger)) ! j = m ! j"
    and "snd (snd (gradfilter_ema m grads alpha lamb trigger)) (fst (m ! j))
           = (case grads of None \<Rightarrow> None | Some st \<Rightarrow> st (fst (m ! j)))"
    and "fst (gradfilter_ema (live_params m) grads alpha lamb trigger)
           = fst (gradfilter_ema m grads alpha lamb trigger)"
    and "snd (snd (gradfilter_ema (live_params m) grads alpha lamb trigger))
           = snd (snd (gradfilter_ema m grads alpha lamb trigger))"
proof -
  let ?body = "ema_body alpha lamb trigger"
  have dead: "\<And>q. (fst (m ! j), q) \<in> set m \<Longrightarrow> live_grad q = None"
    using dead_name [OF assms] .
  have frame: "snd (snd (for_named_parameters ?body m st)) (fst (m ! j)) = st (fst (m ! j))" for st
    by (rule fnp_state_frame [OF ema_body_local dead])
  show "fst (snd (gradfilter_ema m grads alpha lamb trigger)) ! j = m ! j"
    using assms(2,3) by (simp add: gradfilter_ema_def fnp_skipped_param)
  have "dict_of_params f m (fst (m ! j)) = None" for f :: "param \<Rightarrow> tensor \<Rightarrow> tensor"
    by (rule dict_of_params_dead [OF dead])
  then show "snd (snd (gradfilter_ema m grads alpha lamb trigger)) (fst (m ! j))
           = (case grads of None \<Rightarrow> None | Some st \<Rightarrow> st (fst (m ! j)))"
    by (simp add: gradfilter_ema_def frame split: option.splits)
  show "fst (gradfilter_ema (live_params m) grads alpha lamb trigger)
           = fst (gradfilter_ema m grads alpha lamb trigger)"
    by (simp add: gradfilter_ema_def dict_of_params_live_only fnp_live_only split: option.splits)
  show "snd (snd (gradfilter_ema (live_params m) grads alpha lamb trigger))
           = snd (snd (gradfilter_ema m grads alpha lamb trigger))"
    by (simp add: gradfilter_ema_def dict_of_params_live_only fnp_live_only split: option.splits)
qed

lemma kalman_skip:
  assumes "distinct (map fst m)" "j < length m" "live_grad (snd (m ! j)) = None"
  shows "fst (snd (gradfilter_kalman m grads Q R lamb)) ! j = m ! j"
    and "snd (snd (gradfilter_kalman m grads Q R lamb)) (fst (m ! j))
           = (case grads of None \<Rightarrow> None | Some st \<Rightarrow> st (fst (m ! j)))"
    and "fst (gradfilter_kalman (live_params m) grads Q R lamb)
           = fst (gradfilter_kalman m grads Q R lamb)"
    and "snd (snd (gradfilter_kalman (live_params m) grads Q R lamb))
           = snd (snd (gradfilter_kalman m grads Q R lamb))"
proof -
  let ?body = "kalman_body Q R lamb"
  have dead: "\<And>q. (fst (m ! j), q) \<in> set m \<Longrightarrow> live_grad q = None"
    using dead_name [OF assms] .
  have frame: "snd (snd (for_named_parameters ?body m st)) (fst (m ! j)) = st (fst (m ! j))" for st
    by (rule fnp_state_frame [OF kalman_body_local dead])
  show "fst (snd (gradfilter_kalman m grads Q R lamb)) ! j = m ! j"
    using assms(2,3) by (simp add: gradfilter_kalman_def fnp_skipped_param)
  have "dict_of_params f m (fst (m ! j)) = None" for f :: "param \<Rightarrow> tensor \<Rightarrow> kalman_entry"
    by (rule dict_of_params_dead [OF dead])
  then show "snd (snd (gradfilter_kalman m grads Q R lamb)) (fst (m ! j))
           = (case grads of None \<Rightarrow> None | Some st \<Rightarrow> st (fst (m ! j)))"
    by (simp add: gradfilter_kalman_def kalman_init_def frame split: option.splits)
  show "fst (gradfilter_kalman (live_params m) grads Q R lamb)
           = fst (gradfilter_kalman m grads Q R lamb)"
    by (simp add: gradfilter_kalman_def kalman_init_def dict_of_params_live_only fnp_live_only
        split: option.splits)
  show "snd (snd (gradfilter_kalman (live_params m) grads Q R lamb))
           = snd (snd (gradfilter_kalman m grads Q R lamb))"
    by (simp add: gradfilter_kalman_def kalman_init_def dict_of_params_live_only fnp_live_only
        split: option.splits)
qed

lemma smoother_skip:
  assumes "distinct (map fst m)" "j < length m" "live_grad (snd (m ! j)) = None"
  shows "fst (snd (smoother m grads beta pp)) ! j = m ! j"
    and "snd (snd (smoother m grads beta pp)) (fst (m ! j))
           = (case grads of None \<Rightarrow> None | Some st \<Rightarrow> st (fst (m ! j)))"
    and "fst (smoother (live_params m) grads beta pp) = fst (smoother m grads beta pp)"
    and "snd (snd (smoother (live_params m) grads beta pp)) = snd (snd (smoother m grads beta pp))"
proof -
  let ?body = "smoother_body beta pp"
  let ?z = "dict_of_params (\<lambda>p g. data p) m"
  let ?m' = "fst (snd (for_named_parameters ?body m ?z))"
  have sm: "smoother m grads beta pp
      = (fst (for_named_parameters ?body m ?z), ?m',
         case grads of None \<Rightarrow> dict_of_params (\<lambda>p g. g) ?m' | Some d \<Rightarrow> d)" for grads
    by (cases "for_named_parameters ?body m ?z") (simp add: smoother_def split: option.splits)
  let ?l' = "fst (snd (for_named_parameters ?body (live_params m) ?z))"
  have fe: "fst (for_named_parameters ?body (live_params m) ?z)
              = fst (for_named_parameters ?body m ?z)"
    using fnp_live_only [of ?body m ?z] by simp
  have sl: "smoother (live_params m) grads beta pp
      = (fst (for_named_parameters ?body m ?z), ?l',
         case grads of None \<Rightarrow> dict_of_params (\<lambda>p g. g) ?l' | Some d \<Rightarrow> d)" for grads
    using fe
    by (cases "for_named_parameters ?body (live_params m) ?z")
      (simp add: smoother_def dict_of_params_live_only split: option.splits)
  have j': "?m' ! j = m ! j"
    using assms(2,3) by (rule fnp_skipped_param)
  show "fst (snd (smoother m grads beta pp)) ! j = m ! j"
    using j' by (simp add: sm)
  have names: "map fst ?m' = map fst m" by (rule fnp_names)
  then have len: "length ?m' = length m" by (metis length_map)
  have dead: "live_grad q = None" if "(fst (m ! j), q) \<in> set ?m'" for q
  proof (rule dead_name [of ?m' j])
    show "distinct (map fst ?m')" using names assms(1) by simp
    show "j < length ?m'" using len assms(2) by simp
    show "live_grad (snd (?m' ! j)) = None" using j' assms(3) by simp
    show "(fst (?m' ! j), q) \<in> set ?m'" using that j' by simp
  qed
  have "dict_of_params (\<lambda>p g. g) ?m' (fst (m ! j)) = None"
    by (rule dict_of_params_dead [OF dead])
  then show "snd (snd (smoother m grads beta pp)) (fst (m ! j))
           = (case grads of None \<Rightarrow> None | Some st \<Rightarrow> st (fst (m ! j)))"
    by (simp add: sm split: option.splits)
  show "fst (smoother (live_params m) grads beta pp) = fst (smoother m grads beta pp)"
    by (simp add: sm sl)
  have "dict_of_params f ?l' = dict_of_params f ?m'" for f :: "param \<Rightarrow> tensor \<Rightarrow> tensor"
    using fnp_live_only_module [of ?body m ?z]
    by (metis dict_of_params_live_only)
  then show "snd (snd (smoother (live_params m) grads beta pp))
               = snd (snd (smoother m grads beta pp))"
    by (simp add: sm sl split: option.splits)
qed

text \<open>C10. A parameter that is not trainable or has no gradient is skipped by each of
  the four filters, on a module with distinct parameter names and whatever state is
  passed in: the parameter is as before when the call ends (whether the call returns or
  raises), the state dictionary has no new and no changed entry under its name, and it
  causes no exception: the exception (if any) and the final state of the call are those
  of the same call on the module without the skipped parameters.\<close>

theorem skipped_parameter_untouched:
  assumes "distinct (map fst m)" and "j < length m" and "live_grad (snd (m ! j)) = None"
  shows "(fst (snd (gradfilter_ma m gma ws lamb ft warmup trigger)) ! j = m ! j
          \<and> snd (snd (gradfilter_ma m gma ws lamb ft warmup trigger)) (fst (m ! j))
              = (case gma of None \<Rightarrow> None | Some st \<Rightarrow> st (fst (m ! j)))
          \<and> fst (gradfilter_ma (live_params m) gma ws lamb ft warmup trigger)
              = fst (gradfilter_ma m gma ws lamb ft warmup trigger)
          \<and> snd (snd (gradfilter_ma (live_params m) gma ws lamb ft warmup trigger))
              = snd (snd (gradfilter_ma m gma ws lamb ft warmup trigger)))
       \<and> (fst (snd (gradfilter_ema m gema alpha lamb trigger)) ! j = m ! j
          \<and> snd (snd (gradfilter_ema m gema alpha lamb trigger)) (fst (m ! j))
              = (case gema of None \<Rightarrow> None | Some st \<Rightarrow> st (fst (m ! j)))
          \<and> fst (gradfilter_ema (live_params m) gema alpha lamb trigger)
              = fst (gradfilter_ema m gema alpha lamb trigger)
          \<and> snd (snd (gradfilter_ema (live_params m) gema alpha lamb trigger))
              = snd (snd (gradfilter_ema m gema alpha lamb trigger)))
       \<and> (fst (snd (smoother m gsm beta pp)) ! j = m ! j
          \<and> snd (snd (smoother m gsm beta pp)) (fst (m ! j))
              = (case gsm of None \<Rightarrow> None | Some st \<Rightarrow> st (fst (m ! j)))
          \<and> fst (smoother (live_params m) gsm beta pp) = fst (smoother m gsm beta pp)
          \<and> snd (snd (smoother (live_params m) gsm beta pp))
              = snd (snd (smoother m gsm beta pp)))
       \<and> (fst (snd (gradfilter_kalman m gkal Q R lamb)) ! j = m ! j
          \<and> snd (snd (gradfilter_kalman m gkal Q R lamb)) (fst (m ! j))
              = (case gkal of None \<Rightarrow> None | Some st \<Rightarrow> st (fst (m ! j)))
          \<and> fst (gradfilter_kalman (live_params m) gkal Q R lamb)
              = fst (gradfilter_kalman m gkal Q R lamb)
          \<and> snd (snd (gradfilter_kalman (live_params m) gkal Q R lamb))
              = snd (snd (gradfilter_kalman m gkal Q R lamb)))"
  by (intro conjI;
      rule ma_skip [OF assms] ema_skip [OF assms] smoother_skip [OF assms] kalman_skip [OF assms])

theorem skipped_parameter_untouched_witness:
  "distinct (map fst frozen_and_live) \<and> 1 < length frozen_and_live
   \<and> live_grad (snd (frozen_and_live ! 1)) = None
   \<and> fst (frozen_and_live ! 1) = ''bias''
   \<and> fst (snd (gradfilter_ema frozen_and_live None (98 / 100) 2 False)) ! 1
       = frozen_and_live ! 1
   \<and> snd (snd (gradfilter_ema frozen_and_live None (98 / 100) 2 False)) ''bias'' = None
   \<and> fst (gradfilter_kalman (live_params frozen_and_live) None (1 / 10000) (1 / 100) 2)
       = fst (gradfilter_kalman frozen_and_live None (1 / 10000) (1 / 100) 2)"
proof -
  have d: "distinct (map fst frozen_and_live)" "1 < length frozen_and_live"
    "live_grad (snd (frozen_and_live ! 1)) = None"
    by (simp_all add: frozen_and_live_def live_grad_def)
  have n: "fst (frozen_and_live ! 1) = ''bias''"
    by (simp add: frozen_and_live_def)
  note t = skipped_parameter_untouched [OF d, where gema = None and alpha = "98 / 100"
      and lamb = 2 and trigger = False and gkal = None and Q = "1 / 10000" and R = "1 / 100"]
  from t have "fst (snd (gradfilter_ema frozen_and_live None (98 / 100) 2 False)) ! 1
       = frozen_and_live ! 1" by blast
  moreover from t have
    "snd (snd (gradfilter_ema frozen_and_live None (98 / 100) 2 False))
       (fst (frozen_and_live ! 1)) = None" by simp
  moreover from t have
    "fst (gradfilter_kalman (live_params frozen_and_live) None (1 / 10000) (1 / 100) 2)
       = fst (gradfilter_kalman frozen_and_live None (1 / 10000) (1 / 100) 2)" by blast
  ultimately show ?thesis using d n by simp
qed

subsection \<open>Sum and mean in gradfilter_ma\<close>



lemma py_sum_Nil: "py_sum [] = Num 0"
  by (simp add: py_sum_def)






lemma maxlen_deque_append [simp]: "maxlen (deque_append d g) = maxlen d"
  by (simp add: deque_append_def Let_def split: option.splits)











subsection \<open>The first call of gradfilter_ema\<close>

lemma blend_self:
  "all_fin g \<Longrightarrow> alpha = 0 \<or> alpha = 1 \<Longrightarrow>
   t_add (t_scale g alpha) (t_scale g (1 - alpha)) = g"
proof (induction g)
  case Nil
  show ?case by (simp add: t_add_def t_scale_def)
next
  case (Cons v vs)
  then have "is_fin v" "all_fin vs" by (simp_all add: all_fin_def)
  then obtain a where "v = Fin a" by (cases v) simp_all
  moreover have "t_add (t_scale vs alpha) (t_scale vs (1 - alpha)) = vs"
    using Cons.IH \<open>all_fin vs\<close> Cons.prems(2) by simp
  ultimately show ?case using Cons.prems(2)
    by (auto simp: t_add_def t_scale_def)
qed

lemma ema_body_key:
  "fst (ema_body alpha lamb False n p g st) = None \<Longrightarrow>
   snd (snd (ema_body alpha lamb False n p g st)) n
     = map_option (\<lambda>acc. t_add (t_scale acc alpha) (t_scale g (1 - alpha))) (st n)"
  by (simp add: ema_body_def Let_def split: option.splits)

lemma ema_loop_returns:
  assumes "covers m st"
  shows "fst (for_named_parameters (ema_body alpha lamb trigger) m st) = None"
proof -
  let ?body = "ema_body alpha lamb trigger"
  have "fst (for_named_parameters ?body m st) = None
        \<and> covers m (snd (snd (for_named_parameters ?body m st)))"
  proof (rule fnp_no_error [where I = "covers m"])
    fix n p g and st :: "string \<rightharpoonup> tensor"
    assume h: "(n, p) \<in> set m" "live_grad p = Some g" "covers m st"
    then obtain acc where "st n = Some acc" using coversD by blast
    then show "fst (?body n p g st) = None \<and> covers m (snd (snd (?body n p g st)))"
      using h(3) by (simp add: ema_body_def Let_def covers_upd)
  qed (rule assms)
  then show ?thesis by simp
qed

text \<open>C6, as stated, fails. A gradient that has overflowed to \<^verbatim>\<open>inf\<close> is blended with
  itself on the first call: with \<^verbatim>\<open>alpha = 1\<close> line 49 computes
  \<^verbatim>\<open>inf * 1 + inf * 0\<close>, which is \<^verbatim>\<open>nan\<close>, and the accumulator stored for the parameter
  is \<^verbatim>\<open>nan\<close>, not the gradient.\<close>

theorem ema_first_accumulator_is_not_gradient:
  "live_grad w_inf = Some [PInf]
   \<and> gradfilter_ema [(''w'', w_inf)] None 1 2 False
       = (None, [(''w'', w_inf\<lparr>grad := Some [NaN]\<rparr>)], [''w'' \<mapsto> [NaN]])"
  by (simp add: gradfilter_ema_def ema_body_def dict_of_params_def w_inf_def live_grad_def
      t_add_def t_scale_def t_divs_def inf_of_sign_def Let_def)

text \<open>C6, amended. The first call (\<^verbatim>\<open>grads\<close> absent) returns, and the accumulator it
  stores for a parameter with the gradient \<^verbatim>\<open>g\<close> is: with \<^verbatim>\<open>trigger = True\<close>, \<^verbatim>\<open>g\<close>;
  with \<^verbatim>\<open>trigger = False\<close>, the blend \<^verbatim>\<open>g * alpha + g * (1 - alpha)\<close> of line 49 as it is
  computed, which is \<^verbatim>\<open>g\<close> when \<^verbatim>\<open>g\<close> is finite and \<^verbatim>\<open>alpha\<close> is 0 or 1.\<close>

theorem ema_first_accumulator:
  assumes "distinct (map fst m)" and "(n, p) \<in> set m" and "live_grad p = Some g"
  shows "fst (gradfilter_ema m None alpha lamb trigger) = None
     \<and> (trigger \<longrightarrow> snd (snd (gradfilter_ema m None alpha lamb trigger)) n = Some g)
     \<and> (\<not> trigger \<longrightarrow>
          snd (snd (gradfilter_ema m None alpha lamb trigger)) n
            = Some (t_add (t_scale g alpha) (t_scale g (1 - alpha))))
     \<and> (all_fin g \<and> (alpha = 0 \<or> alpha = 1) \<longrightarrow>
          snd (snd (gradfilter_ema m None alpha lamb trigger)) n = Some g)"
proof -
  let ?st0 = "dict_of_params (\<lambda>p g. g) m"
  let ?r = "\<lambda>trigger. for_named_parameters (ema_body alpha lamb trigger) m ?st0"
  have call: "gradfilter_ema m None alpha lamb trigger = ?r trigger" for trigger
    by (simp add: gradfilter_ema_def)
  have st0: "?st0 n = Some g" by (rule dict_of_params_in [OF assms])
  have ret: "fst (?r trigger) = None" for trigger
    by (rule ema_loop_returns) (rule covers_dict_of_params [OF assms(1)])
  have byp: "?r True = (None, m, ?st0)"
    by (simp add: ema_body_def fnp_id)
  have "snd (snd (?r False)) n
          = map_option (\<lambda>acc. t_add (t_scale acc alpha) (t_scale g (1 - alpha))) (?st0 n)"
    by (rule fnp_key_result
          [where body = "ema_body alpha lamb False"
             and F = "\<lambda>n p g so. map_option (\<lambda>acc. t_add (t_scale acc alpha) (t_scale g (1 - alpha))) so",
           OF ema_body_local ema_body_key assms ret])
  then have filt: "snd (snd (?r False)) n = Some (t_add (t_scale g alpha) (t_scale g (1 - alpha)))"
    using st0 by simp
  show ?thesis
  proof (cases trigger)
    case True
    with byp st0 ret show ?thesis by (simp add: call)
  next
    case False
    with filt ret [of False] show ?thesis by (simp add: call blend_self)
  qed
qed

theorem ema_first_accumulator_witness:
  "distinct (map fst [(''w'', w_one)]) \<and> (''w'', w_one) \<in> set [(''w'', w_one)]
   \<and> live_grad w_one = Some [Fin 1] \<and> all_fin [Fin 1]
   \<and> snd (snd (gradfilter_ema [(''w'', w_one)] None 1 2 True)) ''w'' = Some [Fin 1]
   \<and> snd (snd (gradfilter_ema [(''w'', w_one)] None 1 2 False)) ''w'' = Some [Fin 1]"
  using ema_first_accumulator [of "[(''w'', w_one)]" "''w''" w_one "[Fin 1]" 1 2 True]
    ema_first_accumulator [of "[(''w'', w_one)]" "''w''" w_one "[Fin 1]" 1 2 False]
  by (simp add: w_one_def live_grad_def all_fin_def t_add_def t_scale_def)

subsection \<open>Zero gain\<close>




































end
